theory Spec2Isabelle
  imports Main "HOL-Library.Word"
begin

section \<open>Text and bytes\<close>

text \<open>
  A Python \<open>str\<close> is a sequence of Unicode code points, a \<open>bytes\<close> object a sequence of
  octets. Code points are natural numbers here, so that \<open>str.strip\<close> and the UTF-8 codec
  see the same characters as the interpreter does.
\<close>

type_synonym str = "nat list"

type_synonym byte = "8 word"

definition u :: "string \<Rightarrow> str" where
  "u s = map of_char s"

definition NL :: nat where
  "NL = 10"

text \<open>The characters \<open>str.strip()\<close> removes: those for which \<open>str.isspace\<close> holds.\<close>

definition isspace :: "nat \<Rightarrow> bool" where
  "isspace c \<longleftrightarrow>
     (9 \<le> c \<and> c \<le> 13) \<or> (28 \<le> c \<and> c \<le> 32) \<or> c = 0x85 \<or> c = 0xA0 \<or>
     c = 0x1680 \<or> (0x2000 \<le> c \<and> c \<le> 0x200A) \<or> c = 0x2028 \<or> c = 0x2029 \<or>
     c = 0x202F \<or> c = 0x205F \<or> c = 0x3000"

definition strip :: "str \<Rightarrow> str" where
  "strip s = rev (dropWhile isspace (rev (dropWhile isspace s)))"

subsection \<open>The UTF-8 codec\<close>

text \<open>
  \<open>bytes.decode('utf-8')\<close> with the default strict error handling: \<open>None\<close> stands for
  \<open>UnicodeDecodeError\<close>. A sequence that stops in the middle of a character is an error.
\<close>

definition cont :: "nat \<Rightarrow> bool" where
  "cont b \<longleftrightarrow> 0x80 \<le> b \<and> b \<le> 0xBF"

fun decode_units :: "nat list \<Rightarrow> str option" where
  "decode_units [] = Some []"
| "decode_units (b0 # bs) =
     (if b0 < 0x80 then map_option ((#) b0) (decode_units bs)
      else if 0xC2 \<le> b0 \<and> b0 \<le> 0xDF then
        (case bs of
           b1 # r \<Rightarrow>
             if cont b1
             then map_option ((#) ((b0 - 0xC0) * 64 + (b1 - 0x80))) (decode_units r)
             else None
         | _ \<Rightarrow> None)
      else if 0xE0 \<le> b0 \<and> b0 \<le> 0xEF then
        (case bs of
           b1 # b2 # r \<Rightarrow>
             if (if b0 = 0xE0 then 0xA0 else 0x80) \<le> b1 \<and>
                b1 \<le> (if b0 = 0xED then 0x9F else 0xBF) \<and> cont b2
             then map_option
                    ((#) ((b0 - 0xE0) * 4096 + (b1 - 0x80) * 64 + (b2 - 0x80)))
                    (decode_units r)
             else None
         | _ \<Rightarrow> None)
      else if 0xF0 \<le> b0 \<and> b0 \<le> 0xF4 then
        (case bs of
           b1 # b2 # b3 # r \<Rightarrow>
             if (if b0 = 0xF0 then 0x90 else 0x80) \<le> b1 \<and>
                b1 \<le> (if b0 = 0xF4 then 0x8F else 0xBF) \<and> cont b2 \<and> cont b3
             then map_option
                    ((#) ((b0 - 0xF0) * 262144 + (b1 - 0x80) * 4096 +
                          (b2 - 0x80) * 64 + (b3 - 0x80)))
                    (decode_units r)
             else None
         | _ \<Rightarrow> None)
      else None)"

definition decode_utf8 :: "byte list \<Rightarrow> str option" where
  "decode_utf8 bs = decode_units (map unat bs)"

text \<open>
  \<open>str.encode('utf-8')\<close>: \<open>None\<close> stands for \<open>UnicodeEncodeError\<close> (a lone surrogate).
\<close>

definition encode_char :: "nat \<Rightarrow> nat list option" where
  "encode_char c =
     (if c < 0x80 then Some [c]
      else if c < 0x800 then Some [0xC0 + c div 64, 0x80 + c mod 64]
      else if c < 0x10000 then
        (if 0xD800 \<le> c \<and> c \<le> 0xDFFF then None
         else Some [0xE0 + c div 4096, 0x80 + (c div 64) mod 64, 0x80 + c mod 64])
      else if c < 0x110000 then
        Some [0xF0 + c div 262144, 0x80 + (c div 4096) mod 64,
              0x80 + (c div 64) mod 64, 0x80 + c mod 64]
      else None)"

fun encode_units :: "str \<Rightarrow> nat list option" where
  "encode_units [] = Some []"
| "encode_units (c # cs) =
     (case encode_char c of
        None \<Rightarrow> None
      | Some bs \<Rightarrow> map_option ((@) bs) (encode_units cs))"

definition encode_utf8 :: "str \<Rightarrow> byte list option" where
  "encode_utf8 s = map_option (map of_nat) (encode_units s)"

section \<open>Framing of the inbound stream\<close>

text \<open>
  The inner loop of \<open>receive_messages\<close>:
  \<^verbatim>\<open>
  while '\n' in buffer:
      line, buffer = buffer.split('\n', 1)
      if line.strip():
          self.handle_server_message(line.strip())
  \<close>
  \<open>extract_lines\<close> returns the successive values of \<open>line\<close> and the buffer left when the
  loop ends; \<open>deliver\<close> is the guarded call of the handler for one \<open>line\<close>.
\<close>

function extract_lines :: "str \<Rightarrow> str list \<times> str" where
  "extract_lines buffer =
     (if NL \<in> set buffer then
        (let line = takeWhile (\<lambda>c. c \<noteq> NL) buffer;
             rest = tl (dropWhile (\<lambda>c. c \<noteq> NL) buffer)
         in case extract_lines rest of (ls, b) \<Rightarrow> (line # ls, b))
      else ([], buffer))"
  by pat_completeness auto

termination
proof (relation "measure length")
  show "wf (measure length)" by simp
next
  fix buffer :: str and x xa
  assume "NL \<in> set buffer" "xa = tl (dropWhile (\<lambda>c. c \<noteq> NL) buffer)"
  then have "buffer \<noteq> []" "xa = tl (dropWhile (\<lambda>c. c \<noteq> NL) buffer)"
    by auto
  moreover have "length (dropWhile (\<lambda>c. c \<noteq> NL) buffer) \<le> length buffer"
    by (rule length_dropWhile_le)
  ultimately show "(xa, buffer) \<in> measure length"
    by (cases buffer) auto
qed

declare extract_lines.simps [simp del]

definition deliver :: "(str \<Rightarrow> 'e list) \<Rightarrow> str \<Rightarrow> 'e list" where
  "deliver handler line = (if strip line \<noteq> [] then handler (strip line) else [])"

text \<open>
  The framing loop run over a sequence of decoded chunks, each appended to the buffer
  (\<open>buffer += data\<close>) before the inner loop runs: the lines split off, in order, and the
  buffer retained at the end.
\<close>

fun feed :: "str \<Rightarrow> str list \<Rightarrow> str list \<times> str" where
  "feed buffer [] = ([], buffer)"
| "feed buffer (data # chunks) =
     (case extract_lines (buffer @ data) of
        (ls, rest) \<Rightarrow> (case feed rest chunks of (ls', b) \<Rightarrow> (ls @ ls', b)))"

section \<open>JSON values and the Python operations applied to them\<close>

text \<open>
  What \<open>json.loads\<close> returns: \<open>None\<close>, \<open>bool\<close>, \<open>int\<close>, \<open>float\<close> (kept as its 64 bits, no
  arithmetic is done on it), \<open>str\<close>, \<open>list\<close>, and \<open>dict\<close> as the list of its items in
  insertion order.
\<close>

datatype json =
    JNull
  | JBool bool
  | JInt int
  | JFloat "64 word"
  | JStr str
  | JArr "json list"
  | JObj "(str \<times> json) list"

datatype exn =
    JSONDecodeError
  | TypeError
  | AttributeError
  | ValueError
  | KeyError
  | RecursionError

text \<open>\<open>k in t\<close> for two strings: \<open>k\<close> occurs in \<open>t\<close> as a contiguous run.\<close>

fun is_substring :: "str \<Rightarrow> str \<Rightarrow> bool" where
  "is_substring k [] = (k = [])"
| "is_substring k (c # cs) = (take (length k) (c # cs) = k \<or> is_substring k cs)"

text \<open>\<open>'key' in x\<close>.\<close>

fun contains :: "str \<Rightarrow> json \<Rightarrow> exn + bool" where
  "contains k (JObj kvs) = Inr (k \<in> set (map fst kvs))"
| "contains k (JArr xs) = Inr (JStr k \<in> set xs)"
| "contains k (JStr t) = Inr (is_substring k t)"
| "contains k _ = Inl TypeError"

text \<open>\<open>x['key']\<close>.\<close>

fun subscript :: "json \<Rightarrow> str \<Rightarrow> exn + json" where
  "subscript (JObj kvs) k = (case map_of kvs k of None \<Rightarrow> Inl KeyError | Some v \<Rightarrow> Inr v)"
| "subscript _ k = Inl TypeError"

text \<open>\<open>x.get('key', default)\<close>: only a \<open>dict\<close> has the method.\<close>

fun py_get :: "json \<Rightarrow> str \<Rightarrow> json \<Rightarrow> exn + json" where
  "py_get (JObj kvs) k d = Inr (case map_of kvs k of None \<Rightarrow> d | Some v \<Rightarrow> v)"
| "py_get _ k d = Inl AttributeError"

text \<open>
  \<open>f"{v:.3f}"\<close>: numbers (and \<open>bool\<close>, a subclass of \<open>int\<close>) format, a \<open>str\<close> raises
  \<open>ValueError\<close>, everything else \<open>TypeError\<close>.
\<close>

fun format_fixed :: "json \<Rightarrow> exn + json" where
  "format_fixed (JInt i) = Inr (JInt i)"
| "format_fixed (JFloat x) = Inr (JFloat x)"
| "format_fixed (JBool b) = Inr (JBool b)"
| "format_fixed (JStr t) = Inl ValueError"
| "format_fixed _ = Inl TypeError"

text \<open>\<open>f"{v:<30}"\<close>: strings and numbers format, \<open>None\<close>, lists and dicts raise.\<close>

fun format_left :: "json \<Rightarrow> exn + json" where
  "format_left JNull = Inl TypeError"
| "format_left (JArr xs) = Inl TypeError"
| "format_left (JObj kvs) = Inl TypeError"
| "format_left v = Inr v"

text \<open>\<open>len(x)\<close> and the elements \<open>for topic in x\<close> runs over.\<close>

fun py_len :: "json \<Rightarrow> exn + nat" where
  "py_len (JArr xs) = Inr (length xs)"
| "py_len (JObj kvs) = Inr (length kvs)"
| "py_len (JStr t) = Inr (length t)"
| "py_len _ = Inl TypeError"

fun py_iter :: "json \<Rightarrow> json list" where
  "py_iter (JArr xs) = xs"
| "py_iter (JObj kvs) = map (\<lambda>kv. JStr (fst kv)) kvs"
| "py_iter (JStr t) = map (\<lambda>c. JStr [c]) t"
| "py_iter _ = []"

section \<open>Console output\<close>

text \<open>
  Each \<open>print\<close> of the client is an event carrying the values interpolated into the line;
  colours and layout are left out. \<open>kind\<close> names the branch of \<open>handle_server_message\<close>
  that printed the message line.
\<close>

datatype kind = Welcome | CommandAck | Status | Debug | Help | Error | Goodbye | Generic

datatype event =
    JsonResponse json
  | Message kind json
  | CommandId json
  | CommandsHeader
  | CommandEntry str str str
  | CommandsFooter
  | DebugHeading str
  | DebugValue str json
  | TopicsHeading nat
  | TopicEntry json json
  | RawResponse str
  | FailedToParse exn
  | RawMessage str
  | Plain str
  | ConnectedTo
  | FailedToConnect
  | Disconnected
  | ReceiveError
  | ShuttingDown
  | NotConnected
  | Sending str
  | FailedToSend
  | Exiting
  | ShowHelp
  | ClearScreen
  | Executing str str
  | FailedToSendCommand
  | CommandNotFound str
  | UseQToQuit

text \<open>
  A block of statements inside a \<open>try\<close>: what it printed, and the exception that ended it,
  if one did.
\<close>

type_synonym proc = "event list \<times> exn option"

definition say :: "event \<Rightarrow> proc" where
  "say e = ([e], None)"

definition skip :: proc where
  "skip = ([], None)"

definition eval_then :: "exn + 'a \<Rightarrow> ('a \<Rightarrow> proc) \<Rightarrow> proc" where
  "eval_then v f = (case v of Inl e \<Rightarrow> ([], Some e) | Inr x \<Rightarrow> f x)"

fun seqs :: "proc list \<Rightarrow> proc" where
  "seqs [] = ([], None)"
| "seqs ((es, Some e) # ps) = (es, Some e)"
| "seqs ((es, None) # ps) = (case seqs ps of (es', r) \<Rightarrow> (es @ es', r))"

section \<open>The command table\<close>

text \<open>\<open>self.commands\<close> of \<open>control.py\<close>: token, name, description.\<close>

definition commands :: "(str \<times> str \<times> str) list" where
  "commands =
     [(u ''a'', u ''Unlock'', u ''Unlock the drone''),
      (u ''d'', u ''Lock'', u ''Lock the drone''),
      (u ''t'', u ''Takeoff'', u ''Take off the drone''),
      (u ''l'', u ''Land'', u ''Land the drone''),
      (u ''r'', u ''Run'', u ''Start mission''),
      (u ''s'', u ''Stop'', u ''Stop mission''),
      (u ''1'', u ''Position 1'', u ''Go to position 1''),
      (u ''2'', u ''Position 2'', u ''Go to position 2''),
      (u ''3'', u ''Position 3'', u ''Go to position 3''),
      (u ''4'', u ''Position 4'', u ''Go to position 4''),
      (u ''p'', u ''Position Info'', u ''Get current position and orientation''),
      (u ''i'', u ''Topic Info'', u ''List all ROS topics''),
      (u ''h'', u ''Help'', u ''Show this help''),
      (u ''q'', u ''Quit'', u ''Exit the program'')]"

section \<open>The session\<close>

text \<open>
  The fields of \<open>DroneController\<close> that the network code reads and writes. \<open>socket\<close> is
  \<open>None\<close> until \<open>connect\<close> creates one. \<open>calls\<close> lists the calls made on the socket so far
  (whether they succeeded or raised), \<open>out\<close> the lines printed.
\<close>

datatype sock = Open | Closed

datatype sock_call = SockConnect | SockSend "byte list" | SockClose

record session =
  socket :: "sock option"
  connected :: bool
  running :: bool
  calls :: "sock_call list"
  out :: "event list"

definition init :: session where
  "init = \<lparr>socket = None, connected = False, running = True, calls = [], out = []\<rparr>"

text \<open>What the operating system does with a call: it returns, or the call raises.\<close>

datatype outcome = Ok | Raises

datatype connect_outcome = CreateRaises | ConnectRaises | ConnectOk

definition connect :: "connect_outcome \<Rightarrow> session \<Rightarrow> bool \<times> session" where
  "connect oc s =
     (case oc of
        CreateRaises \<Rightarrow> (False, s\<lparr>out := out s @ [FailedToConnect]\<rparr>)
      | ConnectRaises \<Rightarrow>
          (False, s\<lparr>socket := Some Open, calls := calls s @ [SockConnect],
                    out := out s @ [FailedToConnect]\<rparr>)
      | ConnectOk \<Rightarrow>
          (True, s\<lparr>socket := Some Open, calls := calls s @ [SockConnect],
                   connected := True, out := out s @ [ConnectedTo]\<rparr>))"

text \<open>
  \<^verbatim>\<open>
  def disconnect(self):
      if self.connected and self.socket:
          try:
              self.socket.send(b"quit\n")
              self.socket.close()
          except:
              pass
          self.connected = False
          print("Disconnected from server")
  \<close>
  \<open>snd_oc\<close> and \<open>cls_oc\<close> are the outcomes of \<open>send\<close> and of \<open>close\<close>.
\<close>

definition quit_line :: "byte list" where
  "quit_line = [0x71, 0x75, 0x69, 0x74, 0x0A]"

definition disconnect :: "outcome \<Rightarrow> outcome \<Rightarrow> session \<Rightarrow> session" where
  "disconnect snd_oc cls_oc s =
     (if connected s \<and> socket s \<noteq> None then
        (let s1 = s\<lparr>calls := calls s @ [SockSend quit_line]\<rparr>;
             s2 = (case snd_oc of
                     Raises \<Rightarrow> s1
                   | Ok \<Rightarrow>
                       (let s1' = s1\<lparr>calls := calls s1 @ [SockClose]\<rparr>
                        in case cls_oc of
                             Raises \<Rightarrow> s1'
                           | Ok \<Rightarrow> s1'\<lparr>socket := Some Closed\<rparr>))
         in s2\<lparr>connected := False, out := out s2 @ [Disconnected]\<rparr>)
      else s)"

text \<open>\<open>signal_handler\<close>: print, \<open>disconnect()\<close>, \<open>sys.exit(0)\<close>; the session at exit.\<close>

definition signal_handler :: "outcome \<Rightarrow> outcome \<Rightarrow> session \<Rightarrow> session" where
  "signal_handler snd_oc cls_oc s =
     disconnect snd_oc cls_oc (s\<lparr>out := out s @ [ShuttingDown]\<rparr>)"

text \<open>
  \<open>send_command\<close> of \<open>control.py\<close>. Inside the \<open>try\<close>, \<open>self.socket.send\<close> raises
  \<open>AttributeError\<close> when the socket is \<open>None\<close>, and the encoding of the command may raise
  before the socket is called.
\<close>

definition send_command :: "outcome \<Rightarrow> str \<Rightarrow> session \<Rightarrow> bool \<times> session" where
  "send_command snd_oc command s =
     (if \<not> connected s then (False, s\<lparr>out := out s @ [NotConnected]\<rparr>)
      else
        (let s1 = s\<lparr>out := out s @ [Sending command]\<rparr>
         in case (socket s1, encode_utf8 (command @ [NL])) of
              (Some sk, Some bs) \<Rightarrow>
                (let s2 = s1\<lparr>calls := calls s1 @ [SockSend bs]\<rparr>
                 in case snd_oc of
                      Ok \<Rightarrow> (True, s2)
                    | Raises \<Rightarrow> (False, s2\<lparr>out := out s2 @ [FailedToSend]\<rparr>))
            | _ \<Rightarrow> (False, s1\<lparr>out := out s1 @ [FailedToSend]\<rparr>)))"

section \<open>The receive loop\<close>

text \<open>
  \<^verbatim>\<open>
  def receive_messages(self):
      buffer = ""
      while self.connected and self.running:
          try:
              data = self.socket.recv(1024).decode('utf-8')
              if not data:
                  break
              buffer += data
              while '\n' in buffer:
                  line, buffer = buffer.split('\n', 1)
                  if line.strip():
                      self.handle_server_message(line.strip())
          except socket.timeout:
              continue
          except Exception as e:
              if self.connected:
                  print(f"Receive error: {e}")
              break
  \<close>
  The results of the successive \<open>recv\<close> calls are given as a list. When the list is used up
  while the loop condition still holds, the thread is waiting in \<open>recv\<close>: \<open>Polling\<close>.
  \<open>Finished\<close> is the loop left, by \<open>break\<close> or by its condition. The handler is a parameter:
  both clients share this loop and differ in the handler. It is given by what it prints:
  neither handler lets an exception out (the one of \<open>drone_controller.py\<close> only prints,
  the one of \<open>control.py\<close> catches \<open>Exception\<close>), so the loop's own \<open>except\<close> clauses
  see only what \<open>recv\<close> and \<open>decode\<close> raise.
\<close>

datatype recv_outcome = Bytes "byte list" | Timeout | RecvRaises

text \<open>
  The expression \<open>self.socket.recv(1024).decode('utf-8')\<close>: a string, \<open>socket.timeout\<close>, or
  another exception (from \<open>recv\<close>, or \<open>UnicodeDecodeError\<close> from \<open>decode\<close>).
\<close>

datatype chunk = Data str | TimedOut | Failed

definition recv_decode :: "recv_outcome \<Rightarrow> chunk" where
  "recv_decode r =
     (case r of
        Bytes bs \<Rightarrow> (case decode_utf8 bs of None \<Rightarrow> Failed | Some d \<Rightarrow> Data d)
      | Timeout \<Rightarrow> TimedOut
      | RecvRaises \<Rightarrow> Failed)"

datatype loop_status = Polling | Finished

fun receive_loop ::
  "(str \<Rightarrow> event list) \<Rightarrow> recv_outcome list \<Rightarrow> str \<Rightarrow> session \<Rightarrow>
   loop_status \<times> str \<times> session" where
  "receive_loop handler [] buffer s =
     (if connected s \<and> running s then (Polling, buffer, s) else (Finished, buffer, s))"
| "receive_loop handler (r # rs) buffer s =
     (if \<not> (connected s \<and> running s) then (Finished, buffer, s)
      else
        (case recv_decode r of
           TimedOut \<Rightarrow> receive_loop handler rs buffer s
         | Failed \<Rightarrow>
             (Finished, buffer,
              if connected s then s\<lparr>out := out s @ [ReceiveError]\<rparr> else s)
         | Data data \<Rightarrow>
             if data = [] then (Finished, buffer, s)
             else
               (case extract_lines (buffer @ data) of
                  (ls, rest) \<Rightarrow>
                    receive_loop handler rs rest
                      (s\<lparr>out := out s @ concat (map (deliver handler) ls)\<rparr>))))"

definition receive_messages ::
  "(str \<Rightarrow> event list) \<Rightarrow> recv_outcome list \<Rightarrow> session \<Rightarrow> loop_status \<times> str \<times> session" where
  "receive_messages handler rs s = receive_loop handler rs [] s"

section \<open>The message handler of \<open>drone_controller.py\<close>\<close>

text \<open>
  \<^verbatim>\<open>
  def handle_server_message(self, message):
      if message.startswith("FCU Command Server Connected!"):
          print("[SERVER] " + message)
      elif message.startswith("Command:"):
          print("[CMD] " + message)
      elif message.startswith("STATUS:"):
          print("[STATUS] " + message[7:])
      elif message.startswith("Commands:"):
          print("[HELP] " + message)
      else:
          print("[MSG] " + message)
  \<close>
\<close>

definition startswith :: "str \<Rightarrow> str \<Rightarrow> bool" where
  "startswith s p \<longleftrightarrow> take (length p) s = p"

definition plain_handle_server_message :: "str \<Rightarrow> event list" where
  "plain_handle_server_message message =
     (if startswith message (u ''FCU Command Server Connected!'')
      then [Plain (u ''[SERVER] '' @ message)]
      else if startswith message (u ''Command:'') then [Plain (u ''[CMD] '' @ message)]
      else if startswith message (u ''STATUS:'') then [Plain (u ''[STATUS] '' @ drop 7 message)]
      else if startswith message (u ''Commands:'') then [Plain (u ''[HELP] '' @ message)]
      else [Plain (u ''[MSG] '' @ message)])"

section \<open>The message handler of \<open>control.py\<close>\<close>

text \<open>
  \<open>if 'k' in data: v = data['k']; ...\<close>, the guard and the read both as Python evaluates them.
\<close>

definition when_in :: "str \<Rightarrow> json \<Rightarrow> (json \<Rightarrow> proc) \<Rightarrow> proc" where
  "when_in k data body =
     eval_then (contains k data)
       (\<lambda>b. if b then eval_then (subscript data k) body else skip)"

text \<open>
  \<open>print_commands\<close> of the source (renamed: the name is an Isabelle command): the
  heading, then for each item of the dict whose key is a known
  command a line with the name and the description from \<open>self.commands\<close>, then the rule.
  \<open>commands_data.items()\<close> raises \<open>AttributeError\<close> on anything but a dict.
\<close>

definition print_commands_py :: "json \<Rightarrow> proc" where
  "print_commands_py commands_data =
     seqs [say CommandsHeader,
           (case commands_data of
              JObj kvs \<Rightarrow>
                (concat (map (\<lambda>(cmd, desc).
                           case map_of commands cmd of
                             None \<Rightarrow> []
                           | Some (name, description) \<Rightarrow> [CommandEntry cmd name description])
                         kvs),
                 None)
            | _ \<Rightarrow> ([], Some AttributeError)),
           say CommandsFooter]"

text \<open>\<open>print(f"  X: {pos.get('x', 'N/A'):.3f}")\<close> and its siblings.\<close>

definition print_fixed :: "str \<Rightarrow> json \<Rightarrow> str \<Rightarrow> proc" where
  "print_fixed label obj k =
     eval_then (py_get obj k (JStr (u ''N/A'')))
       (\<lambda>v. eval_then (format_fixed v) (\<lambda>w. say (DebugValue label w)))"

text \<open>The body of the loop over the topics.\<close>

definition print_topic :: "json \<Rightarrow> proc" where
  "print_topic topic =
     eval_then (py_get topic (u ''name'') (JStr (u ''Unknown'')))
       (\<lambda>name. eval_then (py_get topic (u ''type'') (JStr (u ''Unknown'')))
          (\<lambda>msg_type. eval_then (format_left name) (\<lambda>w. say (TopicEntry w msg_type))))"

definition print_debug_data :: "json \<Rightarrow> proc" where
  "print_debug_data data =
     seqs
      [when_in (u ''world_position'') data
         (\<lambda>pos. seqs [say (DebugHeading (u ''World Position'')),
                       print_fixed (u ''X'') pos (u ''x''),
                       print_fixed (u ''Y'') pos (u ''y''),
                       print_fixed (u ''Z'') pos (u ''z'')]),
       when_in (u ''orientation'') data
         (\<lambda>orient. seqs [say (DebugHeading (u ''Orientation'')),
                          print_fixed (u ''Roll'') orient (u ''roll''),
                          print_fixed (u ''Pitch'') orient (u ''pitch''),
                          print_fixed (u ''Yaw'') orient (u ''yaw'')]),
       when_in (u ''velocity'') data
         (\<lambda>vel. when_in (u ''linear'') vel
            (\<lambda>lin_vel. seqs [say (DebugHeading (u ''Linear Velocity'')),
                              print_fixed (u ''X'') lin_vel (u ''x''),
                              print_fixed (u ''Y'') lin_vel (u ''y''),
                              print_fixed (u ''Z'') lin_vel (u ''z'')])),
       when_in (u ''imu'') data
         (\<lambda>imu. when_in (u ''linear_acceleration'') imu
            (\<lambda>acc. seqs [say (DebugHeading (u ''IMU Acceleration'')),
                          print_fixed (u ''X'') acc (u ''x''),
                          print_fixed (u ''Y'') acc (u ''y''),
                          print_fixed (u ''Z'') acc (u ''z'')])),
       when_in (u ''gnss'') data
         (\<lambda>gnss. seqs [say (DebugHeading (u ''GNSS'')),
                        print_fixed (u ''Latitude'') gnss (u ''latitude''),
                        print_fixed (u ''Longitude'') gnss (u ''longitude''),
                        print_fixed (u ''Altitude'') gnss (u ''altitude'')]),
       when_in (u ''topics'') data
         (\<lambda>topics. eval_then (py_len topics)
            (\<lambda>n. seqs (say (TopicsHeading n) # map print_topic (py_iter topics))))]"

text \<open>
  The chain \<open>if msg_type == 'welcome': ... elif ... else: ...\<close> of \<open>handle_server_message\<close>,
  with the variables it reads.
\<close>

definition dispatch_message :: "json \<Rightarrow> json \<Rightarrow> json \<Rightarrow> json \<Rightarrow> proc" where
  "dispatch_message data msg_type msg_text msg_data =
     (if msg_type = JStr (u ''welcome'') then
        seqs [say (Message Welcome msg_text), when_in (u ''data'') data print_commands_py]
      else if msg_type = JStr (u ''command'') then
        seqs [say (Message CommandAck msg_text),
              when_in (u ''command_id'') msg_data (\<lambda>v. say (CommandId v))]
      else if msg_type = JStr (u ''status'') then say (Message Status msg_text)
      else if msg_type = JStr (u ''debug'') then
        seqs [say (Message Debug msg_text), print_debug_data msg_data]
      else if msg_type = JStr (u ''help'') then
        seqs [say (Message Help msg_text), when_in (u ''commands'') msg_data print_commands_py]
      else if msg_type = JStr (u ''error'') then say (Message Error msg_text)
      else if msg_type = JStr (u ''goodbye'') then say (Message Goodbye msg_text)
      else say (Message Generic msg_text))"

text \<open>
  The \<open>try\<close> block of \<open>handle_server_message\<close>: decoding, the four \<open>data.get\<close>, the dump of
  the decoded value, the chain. \<open>json.loads\<close> is a parameter: a function from the line to
  the decoded value or the exception raised (\<open>JSONDecodeError\<close> for text that is not JSON).
\<close>

definition handle_body :: "(str \<Rightarrow> exn + json) \<Rightarrow> str \<Rightarrow> proc" where
  "handle_body loads message =
     eval_then (loads message) (\<lambda>data.
     eval_then (py_get data (u ''type'') (JStr (u ''unknown''))) (\<lambda>msg_type.
     eval_then (py_get data (u ''message'') (JStr [])) (\<lambda>msg_text.
     eval_then (py_get data (u ''timestamp'') (JInt 0)) (\<lambda>timestamp.
     eval_then (py_get data (u ''data'') (JObj [])) (\<lambda>msg_data.
       seqs [say (JsonResponse data),
             dispatch_message data msg_type msg_text msg_data])))))"

text \<open>
  \<open>handle_server_message\<close> with its two \<open>except\<close> clauses: what is printed, and the
  exception that leaves the function, if any.
\<close>

definition handle_server_message :: "(str \<Rightarrow> exn + json) \<Rightarrow> str \<Rightarrow> proc" where
  "handle_server_message loads message =
     (case handle_body loads message of
        (es, None) \<Rightarrow> (es, None)
      | (es, Some JSONDecodeError) \<Rightarrow> (es @ [RawResponse message], None)
      | (es, Some e) \<Rightarrow> (es @ [FailedToParse e, RawMessage message], None))"

text \<open>
  What \<open>json.loads\<close> returns on the lines used in the examples below: the line \<open>hello\<close>, and
  three objects.
\<close>

definition sample_lines :: "(str \<times> (exn + json)) list" where
  "sample_lines =
     [(u ''hello'', Inl JSONDecodeError),
      (u ''{\"type\":\"welcome\",\"message\":\"hi\",\"data\":{\"a\":\"Unlock\"}}'',
       Inr (JObj [(u ''type'', JStr (u ''welcome'')), (u ''message'', JStr (u ''hi'')),
                  (u ''data'', JObj [(u ''a'', JStr (u ''Unlock''))])])),
      (u ''{\"type\":\"status\"}'', Inr (JObj [(u ''type'', JStr (u ''status''))])),
      (u ''{\"message\":\"m\"}'', Inr (JObj [(u ''message'', JStr (u ''m''))]))]"

definition sample_loads :: "str \<Rightarrow> exn + json" where
  "sample_loads line =
     (case map_of sample_lines line of None \<Rightarrow> Inl JSONDecodeError | Some r \<Rightarrow> r)"

section \<open>The interactive loop\<close>

text \<open>
  One iteration of the \<open>while\<close> loop of \<open>interactive_mode\<close> in \<open>control.py\<close>: the outcome of
  \<open>input\<close>, then the dispatch on the stripped command. \<open>snd_oc\<close> is what the socket does if
  the iteration sends.
\<close>

datatype input_outcome = Line str | KeyboardInterrupt | EOFError

datatype loop_ctl = Continue | Break

definition interactive_step ::
  "outcome \<Rightarrow> input_outcome \<Rightarrow> session \<Rightarrow> loop_ctl \<times> session" where
  "interactive_step snd_oc inp s =
     (case inp of
        KeyboardInterrupt \<Rightarrow> (Continue, s\<lparr>out := out s @ [UseQToQuit]\<rparr>)
      | EOFError \<Rightarrow> (Break, s)
      | Line raw \<Rightarrow>
          (let command = strip raw in
           if command = [] then (Continue, s)
           else if command = u ''q'' \<or> command = u ''quit'' \<or> command = u ''exit''
             then (Break, s\<lparr>out := out s @ [Exiting]\<rparr>)
           else if command = u ''h'' \<or> command = u ''help''
             then (Continue, s\<lparr>out := out s @ [ShowHelp]\<rparr>)
           else if command = u ''clear''
             then (Continue, s\<lparr>out := out s @ [ClearScreen]\<rparr>)
           else if command = u ''ls'' \<or> command = u ''commands''
             then (Continue, s\<lparr>out := out s @ [ShowHelp]\<rparr>)
           else
             (case (if length command = 1 then map_of commands command else None) of
                Some (name, description) \<Rightarrow>
                  (case send_command snd_oc command
                          (s\<lparr>out := out s @ [Executing name description]\<rparr>) of
                     (True, s') \<Rightarrow> (Continue, s')
                   | (False, s') \<Rightarrow> (Continue, s'\<lparr>out := out s' @ [FailedToSendCommand]\<rparr>))
              | None \<Rightarrow> (Continue, s\<lparr>out := out s @ [CommandNotFound command]\<rparr>))))"

section \<open>Properties of the framing loop\<close>

lemma connected_session:
  "snd (connect ConnectOk init) =
     \<lparr>socket = Some Open, connected = True, running = True,
      calls = [SockConnect], out = [ConnectedTo]\<rparr>"
  by (simp add: connect_def init_def)

lemma extract_lines_concat:
  "extract_lines buffer = (ls, rest) \<Longrightarrow>
   concat (map (\<lambda>l. l @ [NL]) ls) @ rest = buffer \<and> NL \<notin> set rest \<and>
   (\<forall>l\<in>set ls. NL \<notin> set l)"
proof (induction buffer arbitrary: ls rest rule: extract_lines.induct)
  case (1 buffer)
  show ?case
  proof (cases "NL \<in> set buffer")
    case False
    with "1.prems" show ?thesis by (simp add: extract_lines.simps)
  next
    case True
    let ?line = "takeWhile (\<lambda>c. c \<noteq> NL) buffer"
    let ?rest = "tl (dropWhile (\<lambda>c. c \<noteq> NL) buffer)"
    obtain ls' b where rec: "extract_lines ?rest = (ls', b)" by (cases "extract_lines ?rest")
    from True "1.prems" rec have eq: "ls = ?line # ls'" "rest = b"
      by (simp_all add: extract_lines.simps [of buffer] Let_def)
    from "1.IH" [OF True refl refl rec]
    have ih: "concat (map (\<lambda>l. l @ [NL]) ls') @ b = ?rest" "NL \<notin> set b"
      "\<forall>l\<in>set ls'. NL \<notin> set l" by simp_all
    from True have dw: "dropWhile (\<lambda>c. c \<noteq> NL) buffer \<noteq> []" by simp
    then have hd: "hd (dropWhile (\<lambda>c. c \<noteq> NL) buffer) = NL"
      using hd_dropWhile [of "\<lambda>c. c \<noteq> NL" buffer] by simp
    have "buffer = ?line @ dropWhile (\<lambda>c. c \<noteq> NL) buffer" by simp
    also have "dropWhile (\<lambda>c. c \<noteq> NL) buffer = NL # ?rest"
      using dw hd by (cases "dropWhile (\<lambda>c. c \<noteq> NL) buffer") auto
    finally have split: "buffer = ?line @ NL # ?rest" .
    have nl: "NL \<notin> set ?line" by (auto dest: set_takeWhileD)
    have "concat (map (\<lambda>l. l @ [NL]) ls) @ rest = ?line @ NL # ?rest"
      using eq ih(1) by simp
    with split have "concat (map (\<lambda>l. l @ [NL]) ls) @ rest = buffer" by simp
    with eq ih nl show ?thesis by simp
  qed
qed

text \<open>Data arriving later does not change the lines already split off.\<close>

lemma extract_lines_append:
  "extract_lines buffer = (ls, rest) \<Longrightarrow> extract_lines (rest @ data) = (ls', rest') \<Longrightarrow>
   extract_lines (buffer @ data) = (ls @ ls', rest')"
proof (induction buffer arbitrary: ls rest rule: extract_lines.induct)
  case (1 buffer)
  show ?case
  proof (cases "NL \<in> set buffer")
    case False
    with "1.prems" show ?thesis by (simp add: extract_lines.simps [of buffer])
  next
    case True
    let ?p = "\<lambda>c. c \<noteq> NL"
    obtain l0 b0 where rec: "extract_lines (tl (dropWhile ?p buffer)) = (l0, b0)"
      by (cases "extract_lines (tl (dropWhile ?p buffer))")
    from True "1.prems"(1) rec have eq: "ls = takeWhile ?p buffer # l0" "rest = b0"
      by (simp_all add: extract_lines.simps [of buffer] Let_def)
    from "1.IH" [OF True refl refl rec] "1.prems"(2) eq
    have ih: "extract_lines (tl (dropWhile ?p buffer) @ data) = (l0 @ ls', rest')" by simp
    from True have ne: "dropWhile ?p buffer \<noteq> []" by simp
    from True have tw: "takeWhile ?p (buffer @ data) = takeWhile ?p buffer"
      by simp
    from True have dw: "dropWhile ?p (buffer @ data) = dropWhile ?p buffer @ data"
      by simp
    have "extract_lines (buffer @ data) = (takeWhile ?p buffer # l0 @ ls', rest')"
      using True ih ne tw dw by (simp add: extract_lines.simps [of "buffer @ data"] Let_def)
    with eq show ?thesis by simp
  qed
qed

text \<open>Feeding the chunks one by one splits off what one pass over their concatenation does.\<close>

lemma feed_extract:
  "NL \<notin> set buffer \<Longrightarrow> feed buffer chunks = extract_lines (buffer @ concat chunks)"
proof (induction chunks arbitrary: buffer)
  case Nil
  then show ?case by (simp add: extract_lines.simps [of buffer])
next
  case (Cons d cs)
  obtain ls rest where e1: "extract_lines (buffer @ d) = (ls, rest)"
    by (cases "extract_lines (buffer @ d)")
  then have nl: "NL \<notin> set rest" using extract_lines_concat by blast
  obtain ls' b where e2: "extract_lines (rest @ concat cs) = (ls', b)"
    by (cases "extract_lines (rest @ concat cs)")
  from Cons.IH [OF nl] e2 have "feed rest cs = (ls', b)" by simp
  with e1 have "feed buffer (d # cs) = (ls @ ls', b)" by simp
  moreover from extract_lines_append [OF e1 e2]
  have "extract_lines (buffer @ concat (d # cs)) = (ls @ ls', b)" by simp
  ultimately show ?case by simp
qed

text \<open>
  While every \<open>recv\<close> returns data, the receive loop is the framing loop: it keeps polling,
  and it has called the handler, through \<open>deliver\<close>, on each line split off.
\<close>

lemma receive_loop_data:
  "connected s \<Longrightarrow> running s \<Longrightarrow> map recv_decode rs = map Data ds \<Longrightarrow> [] \<notin> set ds \<Longrightarrow>
   receive_loop h rs buffer s =
     (Polling, snd (feed buffer ds),
      s\<lparr>out := out s @ concat (map (deliver h) (fst (feed buffer ds)))\<rparr>)"
proof (induction rs arbitrary: ds buffer s)
  case Nil
  then show ?case by simp
next
  case (Cons r rs)
  then obtain d ds' where ds: "ds = d # ds'" "recv_decode r = Data d"
    "map recv_decode rs = map Data ds'" "d \<noteq> []" "[] \<notin> set ds'"
    by (cases ds) auto
  obtain ls rest where e: "extract_lines (buffer @ d) = (ls, rest)"
    by (cases "extract_lines (buffer @ d)")
  let ?s = "s\<lparr>out := out s @ concat (map (deliver h) ls)\<rparr>"
  have "receive_loop h rs rest ?s =
     (Polling, snd (feed rest ds'),
      ?s\<lparr>out := out ?s @ concat (map (deliver h) (fst (feed rest ds')))\<rparr>)"
    using Cons.prems ds by (intro Cons.IH) simp_all
  then show ?case using Cons.prems ds e
    by (simp add: split_beta)
qed

lemma recv_decode_Bytes:
  "map decode_utf8 bss = map Some ds \<Longrightarrow> map recv_decode (map Bytes bss) = map Data ds"
proof (induction bss arbitrary: ds)
  case Nil
  then show ?case by simp
next
  case (Cons b bs)
  then show ?case by (cases ds) (auto simp: recv_decode_def)
qed

text \<open>
  C1, as the code has it. The claim as stated fails in two ways, both visible below:
  what the loop hands on is the stripped line, and nothing for a blank one, so white space
  is not given back by reinserting the newlines; and each chunk is decoded on its own, so
  a chunk boundary inside a multi-byte character ends the loop with nothing handed on,
  while the same bytes in one chunk are framed.
\<close>

theorem framing_counterexample:
  "receive_messages plain_handle_server_message [Bytes [0x20, 0x61, 0x0A]]
     (snd (connect ConnectOk init)) =
     (Polling, [],
      (snd (connect ConnectOk init))\<lparr>out := [ConnectedTo, Plain (u ''[MSG] a'')]\<rparr>) \<and>
   receive_messages plain_handle_server_message [Bytes [0xC3], Bytes [0xA9, 0x0A]]
     (snd (connect ConnectOk init)) =
     (Finished, [], (snd (connect ConnectOk init))\<lparr>out := [ConnectedTo, ReceiveError]\<rparr>) \<and>
   receive_messages plain_handle_server_message [Bytes [0xC3, 0xA9, 0x0A]]
     (snd (connect ConnectOk init)) =
     (Polling, [],
      (snd (connect ConnectOk init))\<lparr>out := [ConnectedTo, Plain (u ''[MSG] '' @ [0xE9])]\<rparr>)"
  by (simp add: connected_session receive_messages_def recv_decode_def decode_utf8_def
      cont_def extract_lines.simps NL_def deliver_def strip_def isspace_def
      plain_handle_server_message_def startswith_def u_def)

text \<open>
  C1, amended: for every sequence of received chunks each of which decodes on its own to a
  non-empty string, the loop keeps polling; the lines it splits off at the newlines (taken
  before the stripping done on delivery) and the buffer it retains are those of one pass
  over the concatenation of the decoded chunks, whatever the chunk boundaries; and these
  lines, a newline put back after each, followed by the retained buffer, are the decoded
  input: nothing is lost and nothing is duplicated.
\<close>

theorem framing_lossless:
  assumes "connected s" and "running s"
    and "map decode_utf8 bss = map Some ds" and "[] \<notin> set ds"
  shows "receive_messages h (map Bytes bss) s =
           (Polling, snd (extract_lines (concat ds)),
            s\<lparr>out := out s @ concat (map (deliver h) (fst (extract_lines (concat ds))))\<rparr>) \<and>
         concat (map (\<lambda>l. l @ [NL]) (fst (extract_lines (concat ds)))) @
           snd (extract_lines (concat ds)) = concat ds \<and>
         NL \<notin> set (snd (extract_lines (concat ds)))"
proof -
  have "map recv_decode (map Bytes bss) = map Data ds"
    using assms(3) by (rule recv_decode_Bytes)
  from receive_loop_data [OF assms(1,2) this assms(4), of h "[]"]
  have "receive_messages h (map Bytes bss) s =
           (Polling, snd (extract_lines (concat ds)),
            s\<lparr>out := out s @ concat (map (deliver h) (fst (extract_lines (concat ds))))\<rparr>)"
    by (simp add: receive_messages_def feed_extract)
  moreover have "concat (map (\<lambda>l. l @ [NL]) (fst (extract_lines (concat ds)))) @
           snd (extract_lines (concat ds)) = concat ds \<and>
         NL \<notin> set (snd (extract_lines (concat ds)))"
    using extract_lines_concat [of "concat ds"] by (cases "extract_lines (concat ds)") simp
  ultimately show ?thesis by simp
qed

theorem framing_lossless_witness:
  "connected (snd (connect ConnectOk init)) \<and> running (snd (connect ConnectOk init)) \<and>
   map decode_utf8 [[0x61], [0x0A, 0x62]] = map Some [[97], [10, 98]] \<and>
   [] \<notin> set [[97], [10, 98 :: nat]] \<and>
   receive_messages plain_handle_server_message (map Bytes [[0x61], [0x0A, 0x62]])
     (snd (connect ConnectOk init)) =
     (Polling, [98],
      (snd (connect ConnectOk init))\<lparr>out := [ConnectedTo, Plain (u ''[MSG] a'')]\<rparr>)"
proof -
  let ?s = "snd (connect ConnectOk init)"
  have h1: "connected ?s" and h2: "running ?s" by (simp_all add: connected_session)
  have h3: "map decode_utf8 [[0x61], [0x0A, 0x62]] = map Some [[97], [10, 98]]"
    by (simp add: decode_utf8_def)
  have h4: "[] \<notin> set [[97], [10, 98 :: nat]]" by simp
  have e: "extract_lines [97, 10, 98] = ([[97]], [98])"
    by (simp add: extract_lines.simps NL_def)
  from framing_lossless [OF h1 h2 h3 h4, of plain_handle_server_message] h1 h2 h3 h4
  show ?thesis
    by (simp add: e connected_session deliver_def strip_def isspace_def
        plain_handle_server_message_def startswith_def u_def)
qed

section \<open>What is delivered to the handler\<close>

lemma all_dropWhile: "(\<forall>x\<in>set (dropWhile P l). P x) \<longleftrightarrow> (\<forall>x\<in>set l. P x)"
  by (induction l) auto

lemma strip_empty: "strip l = [] \<longleftrightarrow> (\<forall>c\<in>set l. isspace c)"
  by (simp add: strip_def dropWhile_eq_Nil_conv all_dropWhile)

lemma strip_decomp:
  "\<exists>a b. l = a @ strip l @ b \<and> (\<forall>c\<in>set a. isspace c) \<and> (\<forall>c\<in>set b. isspace c)"
proof -
  let ?a = "dropWhile isspace l"
  have 1: "l = takeWhile isspace l @ ?a" by simp
  have "rev ?a = takeWhile isspace (rev ?a) @ dropWhile isspace (rev ?a)" by simp
  then have "?a = rev (dropWhile isspace (rev ?a)) @ rev (takeWhile isspace (rev ?a))"
    by (metis rev_append rev_rev_ident)
  then have "?a = strip l @ rev (takeWhile isspace (rev ?a))"
    by (simp add: strip_def)
  with 1 have "l = takeWhile isspace l @ strip l @ rev (takeWhile isspace (rev ?a))"
    by simp
  moreover have "\<forall>c\<in>set (takeWhile isspace l). isspace c" by (auto dest: set_takeWhileD)
  moreover have "\<forall>c\<in>set (rev (takeWhile isspace (rev ?a))). isspace c"
    by (auto dest: set_takeWhileD)
  ultimately show ?thesis by blast
qed

lemma strip_ends:
  assumes ne: "strip l \<noteq> []"
  shows "\<not> isspace (hd (strip l)) \<and> \<not> isspace (last (strip l))"
proof -
  let ?a = "dropWhile isspace l"
  let ?b = "dropWhile isspace (rev ?a)"
  from ne have b: "?b \<noteq> []" by (simp add: strip_def)
  then have hb: "\<not> isspace (hd ?b)" by (rule hd_dropWhile)
  have l1: "last (strip l) = hd ?b" using b by (simp add: strip_def last_rev)
  from b have a: "?a \<noteq> []" by (cases ?a) simp_all
  then have ha: "\<not> isspace (hd ?a)" by (rule hd_dropWhile)
  have "rev ?a = takeWhile isspace (rev ?a) @ ?b" by simp
  then have "?a = rev ?b @ rev (takeWhile isspace (rev ?a))"
    by (metis rev_append rev_rev_ident)
  then have "?a = strip l @ rev (takeWhile isspace (rev ?a))" by (simp add: strip_def)
  with ne have "hd ?a = hd (strip l)" by (metis hd_append2)
  with ha hb l1 show ?thesis by simp
qed

text \<open>
  C10: when a received chunk completes lines, the loop calls the handler once for each line
  that is not made of white space only, in order, and with the stripped line; a line of
  white space only (or an empty one) produces no call. The stripped line is the line
  without its longest prefix and suffix of white space of any kind: it neither begins nor
  ends with a white-space character.
\<close>

theorem delivery_strips:
  assumes "connected s" and "running s"
    and "recv_decode r = Data d" and "d \<noteq> []"
    and "extract_lines (buffer @ d) = (ls, rest)"
  shows "receive_loop h [r] buffer s =
           (Polling, rest,
            s\<lparr>out := out s @
               concat (map (\<lambda>l. if \<forall>c\<in>set l. isspace c then [] else h (strip l)) ls)\<rparr>) \<and>
         (\<exists>a b. line = a @ strip line @ b \<and>
                (\<forall>c\<in>set a. isspace c) \<and> (\<forall>c\<in>set b. isspace c)) \<and>
         (strip line \<noteq> [] \<longrightarrow>
            \<not> isspace (hd (strip line)) \<and> \<not> isspace (last (strip line)))"
proof -
  have d: "deliver h = (\<lambda>l. if \<forall>c\<in>set l. isspace c then [] else h (strip l))"
    by (rule ext) (simp add: deliver_def strip_empty)
  have "map recv_decode [r] = map Data [d]" using assms(3) by simp
  from receive_loop_data [OF assms(1,2) this, of h buffer] assms(4,5)
  have "receive_loop h [r] buffer s =
           (Polling, rest, s\<lparr>out := out s @ concat (map (deliver h) ls)\<rparr>)"
    by simp
  with d strip_decomp [of line] strip_ends [of line] show ?thesis by simp
qed

theorem delivery_strips_witness:
  "connected (snd (connect ConnectOk init)) \<and> running (snd (connect ConnectOk init)) \<and>
   recv_decode (Bytes [0x20, 0x09, 0x68, 0x69, 0x20, 0x0D, 0x0A, 0x20, 0x0A]) =
     Data [32, 9, 104, 105, 32, 13, 10, 32, 10] \<and>
   extract_lines ([] @ [32, 9, 104, 105, 32, 13, 10, 32, 10]) =
     ([[32, 9, 104, 105, 32, 13], [32]], []) \<and>
   receive_loop plain_handle_server_message
     [Bytes [0x20, 0x09, 0x68, 0x69, 0x20, 0x0D, 0x0A, 0x20, 0x0A]] []
     (snd (connect ConnectOk init)) =
     (Polling, [],
      (snd (connect ConnectOk init))\<lparr>out := [ConnectedTo, Plain (u ''[MSG] hi'')]\<rparr>) \<and>
   strip [32, 9, 104, 105, 32, 13] = [104, 105]"
proof -
  let ?s = "snd (connect ConnectOk init)"
  let ?d = "[32, 9, 104, 105, 32, 13, 10, 32, 10] :: str"
  have h1: "connected ?s" and h2: "running ?s" by (simp_all add: connected_session)
  have h3: "recv_decode (Bytes [0x20, 0x09, 0x68, 0x69, 0x20, 0x0D, 0x0A, 0x20, 0x0A]) = Data ?d"
    by (simp add: recv_decode_def decode_utf8_def)
  have h4: "?d \<noteq> []" by simp
  have h5: "extract_lines ([] @ ?d) = ([[32, 9, 104, 105, 32, 13], [32]], [])"
    by (simp add: extract_lines.simps NL_def)
  have st: "strip [32, 9, 104, 105, 32, 13] = [104, 105]"
    by (simp add: strip_def isspace_def)
  from delivery_strips [OF h1 h2 h3 h4 h5, of plain_handle_server_message
      "[32, 9, 104, 105, 32, 13]"] h1 h2 h3 h5 st
  show ?thesis
    by (simp add: connected_session isspace_def plain_handle_server_message_def
        startswith_def u_def)
qed

section \<open>Sending and disconnecting\<close>

text \<open>
  C4: when the session is not connected, \<open>send_command\<close> returns \<open>False\<close>, having printed
  the not-connected notice and nothing else, whatever the command; no call is made on the
  socket and the socket is as it was.
\<close>

theorem send_not_connected:
  assumes "\<not> connected s"
  shows "send_command oc command s = (False, s\<lparr>out := out s @ [NotConnected]\<rparr>) \<and>
         calls (snd (send_command oc command s)) = calls s \<and>
         socket (snd (send_command oc command s)) = socket s"
  using assms by (simp add: send_command_def)

theorem send_not_connected_witness:
  "\<not> connected init \<and>
   send_command Ok (u ''t'') init = (False, init\<lparr>out := [NotConnected]\<rparr>) \<and>
   calls (snd (send_command Ok (u ''t'') init)) = []"
proof -
  have h: "\<not> connected init" by (simp add: init_def)
  from send_not_connected [OF h, of Ok "u ''t''"] h show ?thesis
    by (simp add: init_def)
qed

text \<open>
  C5 at the input where the code departs from it: a connected session whose \<open>send\<close> of the
  quit line raises. \<open>close\<close> follows \<open>send\<close> inside the same \<open>try\<close>, so it is not called:
  the calls made are the connect and the send, the socket stays open, and the session is
  marked disconnected. The same holds when \<open>disconnect\<close> is reached from the signal
  handler. When the send succeeds, \<open>close\<close> is called.
\<close>

theorem disconnect_skips_close:
  "disconnect Raises Ok (snd (connect ConnectOk init)) =
     \<lparr>socket = Some Open, connected = False, running = True,
      calls = [SockConnect, SockSend quit_line], out = [ConnectedTo, Disconnected]\<rparr> \<and>
   signal_handler Raises Ok (snd (connect ConnectOk init)) =
     \<lparr>socket = Some Open, connected = False, running = True,
      calls = [SockConnect, SockSend quit_line],
      out = [ConnectedTo, ShuttingDown, Disconnected]\<rparr> \<and>
   disconnect Ok Ok (snd (connect ConnectOk init)) =
     \<lparr>socket = Some Closed, connected = False, running = True,
      calls = [SockConnect, SockSend quit_line, SockClose],
      out = [ConnectedTo, Disconnected]\<rparr>"
  by (simp add: connected_session disconnect_def signal_handler_def)

text \<open>
  C7: a second \<open>disconnect()\<close> right after a first one changes nothing, whatever the session
  the first call started from and whatever the socket would do: no call on the socket, no
  output, no field changed. (\<open>disconnect\<close> has no exception path: the only statements that
  can raise sit under a bare \<open>except\<close>.)
\<close>

theorem disconnect_idempotent:
  "disconnect snd_oc' cls_oc' (disconnect snd_oc cls_oc s) = disconnect snd_oc cls_oc s"
proof (cases "connected s \<and> socket s \<noteq> None")
  case True
  then have "\<not> connected (disconnect snd_oc cls_oc s)"
    by (cases snd_oc; cases cls_oc) (simp_all add: disconnect_def Let_def)
  then show ?thesis
    by (simp add: disconnect_def [of snd_oc' cls_oc'])
next
  case False
  then have "disconnect snd_oc cls_oc s = s"
    by (auto simp: disconnect_def)
  moreover from False have "disconnect snd_oc' cls_oc' s = s"
    by (auto simp: disconnect_def)
  ultimately show ?thesis by simp
qed

section \<open>The receive loop: timeouts, end of stream, errors\<close>

text \<open>
  C9: in a connected, running session a \<open>recv\<close> that times out changes nothing: the loop
  goes on to the next \<open>recv\<close> with the same buffer and the same session, and after any
  number of timeouts in a row it is still polling, nothing printed, the session connected.
\<close>

theorem timeout_benign:
  assumes "connected s" and "running s"
  shows "receive_loop h (Timeout # rs) buffer s = receive_loop h rs buffer s \<and>
         receive_loop h (replicate n Timeout) buffer s = (Polling, buffer, s)"
proof -
  have "receive_loop h (replicate n Timeout) buffer s = (Polling, buffer, s)"
    using assms by (induction n) (simp_all add: recv_decode_def)
  with assms show ?thesis by (simp add: recv_decode_def)
qed

theorem timeout_benign_witness:
  "connected (snd (connect ConnectOk init)) \<and> running (snd (connect ConnectOk init)) \<and>
   receive_loop plain_handle_server_message [Timeout, Timeout, Timeout] []
     (snd (connect ConnectOk init)) = (Polling, [], snd (connect ConnectOk init))"
proof -
  let ?s = "snd (connect ConnectOk init)"
  have h1: "connected ?s" and h2: "running ?s" by (simp_all add: connected_session)
  have r: "replicate 3 Timeout = [Timeout, Timeout, Timeout]"
    by (simp add: numeral_3_eq_3)
  from timeout_benign [OF h1 h2, of plain_handle_server_message "[]" "[]" 3] h1 h2
  show ?thesis by (simp add: r)
qed

text \<open>
  C6 fails on the code: after end of stream, and after a read error, the loop has ended
  but the session is exactly as before (after an error, one notice printed): still marked
  connected, the socket open, no call made on it.
\<close>

theorem receive_end_counterexample:
  "receive_messages plain_handle_server_message [Bytes []] (snd (connect ConnectOk init)) =
     (Finished, [],
      \<lparr>socket = Some Open, connected = True, running = True,
       calls = [SockConnect], out = [ConnectedTo]\<rparr>) \<and>
   receive_messages plain_handle_server_message [RecvRaises] (snd (connect ConnectOk init)) =
     (Finished, [],
      \<lparr>socket = Some Open, connected = True, running = True,
       calls = [SockConnect], out = [ConnectedTo, ReceiveError]\<rparr>)"
  by (simp add: connected_session receive_messages_def recv_decode_def decode_utf8_def)

text \<open>
  C6, amended: when the receive loop observes end of stream, or an error of \<open>recv\<close> or of
  the decoding that is not a timeout, it exits at once, leaving the later input unread and
  the buffer as it was; after an error it has printed a receive-error notice, after end of
  stream nothing. It does not signal the session: the connected flag, the socket and the
  calls made on it are unchanged, so the session still reports itself connected.
\<close>

theorem receive_end_exits:
  assumes "connected s" and "running s"
    and "recv_decode r = Data [] \<or> recv_decode r = Failed"
  shows "receive_loop h (r # rs) buffer s =
           (Finished, buffer,
            if recv_decode r = Failed then s\<lparr>out := out s @ [ReceiveError]\<rparr> else s) \<and>
         connected (snd (snd (receive_loop h (r # rs) buffer s))) \<and>
         socket (snd (snd (receive_loop h (r # rs) buffer s))) = socket s \<and>
         calls (snd (snd (receive_loop h (r # rs) buffer s))) = calls s"
  using assms by auto

theorem receive_end_exits_witness:
  "connected (snd (connect ConnectOk init)) \<and> running (snd (connect ConnectOk init)) \<and>
   recv_decode (Bytes []) = Data [] \<and>
   receive_loop plain_handle_server_message [Bytes [], Bytes [0x61, 0x0A]] []
     (snd (connect ConnectOk init)) = (Finished, [], snd (connect ConnectOk init)) \<and>
   connected (snd (snd (receive_loop plain_handle_server_message
     [Bytes [], Bytes [0x61, 0x0A]] [] (snd (connect ConnectOk init)))))"
proof -
  let ?s = "snd (connect ConnectOk init)"
  have h1: "connected ?s" and h2: "running ?s" by (simp_all add: connected_session)
  have h3: "recv_decode (Bytes []) = Data []" by (simp add: recv_decode_def decode_utf8_def)
  then have h3': "recv_decode (Bytes []) = Data [] \<or> recv_decode (Bytes []) = Failed" by simp
  from receive_end_exits [OF h1 h2 h3', of plain_handle_server_message
      "[Bytes [0x61, 0x0A]]" "[]"] h1 h2 h3
  show ?thesis by simp
qed

section \<open>The message handler\<close>

lemma seqs_say: "seqs (say e # ps) = (e # fst (seqs ps), snd (seqs ps))"
  by (simp add: say_def split: prod.splits)

lemma seqs_single: "seqs [p] = p"
proof (cases p)
  case (Pair es r)
  then show ?thesis by (cases r) simp_all
qed

lemma handle_prefix:
  "\<exists>t. fst (handle_server_message loads line) = fst (handle_body loads line) @ t"
proof (cases "handle_body loads line")
  case (Pair es r)
  show ?thesis
  proof (cases r)
    case None
    with Pair show ?thesis by (simp add: handle_server_message_def)
  next
    case (Some e)
    with Pair show ?thesis by (cases e) (simp_all add: handle_server_message_def)
  qed
qed

lemma handle_returns:
  "snd (handle_body loads line) = None \<Longrightarrow>
   handle_server_message loads line = (fst (handle_body loads line), None)"
  by (cases "handle_body loads line") (simp add: handle_server_message_def)

lemma body_obj:
  assumes "loads line = Inr (JObj kvs)"
  shows "handle_body loads line =
     (JsonResponse (JObj kvs) #
        fst (dispatch_message (JObj kvs)
          (case map_of kvs (u ''type'') of None \<Rightarrow> JStr (u ''unknown'') | Some v \<Rightarrow> v)
          (case map_of kvs (u ''message'') of None \<Rightarrow> JStr [] | Some v \<Rightarrow> v)
          (case map_of kvs (u ''data'') of None \<Rightarrow> JObj [] | Some v \<Rightarrow> v)),
      snd (dispatch_message (JObj kvs)
          (case map_of kvs (u ''type'') of None \<Rightarrow> JStr (u ''unknown'') | Some v \<Rightarrow> v)
          (case map_of kvs (u ''message'') of None \<Rightarrow> JStr [] | Some v \<Rightarrow> v)
          (case map_of kvs (u ''data'') of None \<Rightarrow> JObj [] | Some v \<Rightarrow> v)))"
  using assms by (simp add: handle_body_def eval_then_def seqs_say seqs_single)

lemma dispatch_simple:
  "dispatch_message d (JStr (u ''status'')) m md = ([Message Status m], None)"
  "dispatch_message d (JStr (u ''error'')) m md = ([Message Error m], None)"
  "dispatch_message d (JStr (u ''goodbye'')) m md = ([Message Goodbye m], None)"
  "dispatch_message d (JStr (u ''unknown'')) m md = ([Message Generic m], None)"
  by (simp_all add: dispatch_message_def say_def u_def)

lemma dispatch_head:
  "fst (dispatch_message d (JStr (u ''welcome'')) m md) =
     Message Welcome m # fst (when_in (u ''data'') d print_commands_py)"
  "fst (dispatch_message d (JStr (u ''command'')) m md) =
     Message CommandAck m # fst (when_in (u ''command_id'') md (\<lambda>v. say (CommandId v)))"
  "fst (dispatch_message d (JStr (u ''debug'')) m md) =
     Message Debug m # fst (print_debug_data md)"
  "fst (dispatch_message d (JStr (u ''help'')) m md) =
     Message Help m # fst (when_in (u ''commands'') md print_commands_py)"
  by (simp_all add: dispatch_message_def seqs_say seqs_single u_def)


text \<open>
  C2: no exception leaves \<open>handle_server_message\<close>, whatever the line and whatever
  \<open>json.loads\<close> does with it; and for a line that \<open>json.loads\<close> rejects as not being JSON,
  the handler prints the raw-response notice carrying the line as received, and nothing
  else.
\<close>

theorem non_json_unstructured:
  "snd (handle_server_message loads line) = None \<and>
   (loads line = Inl JSONDecodeError \<longrightarrow>
      handle_server_message loads line = ([RawResponse line], None))"
proof -
  have "snd (handle_server_message loads line) = None"
  proof (cases "handle_body loads line")
    case (Pair es r)
    show ?thesis
    proof (cases r)
      case None
      with Pair show ?thesis by (simp add: handle_server_message_def)
    next
      case (Some e)
      with Pair show ?thesis by (cases e) (simp_all add: handle_server_message_def)
    qed
  qed
  moreover have "loads line = Inl JSONDecodeError \<longrightarrow>
      handle_server_message loads line = ([RawResponse line], None)"
    by (simp add: handle_server_message_def handle_body_def eval_then_def)
  ultimately show ?thesis by simp
qed

theorem non_json_unstructured_witness:
  "sample_loads (u ''hello'') = Inl JSONDecodeError \<and>
   handle_server_message sample_loads (u ''hello'') = ([RawResponse (u ''hello'')], None)"
proof -
  have h: "sample_loads (u ''hello'') = Inl JSONDecodeError"
    by (simp add: sample_loads_def sample_lines_def u_def)
  from non_json_unstructured [of sample_loads "u ''hello''"] h show ?thesis by simp
qed

lemma take2_prefix: "take 2 ((a # b # xs) @ t) = [a, b]"
  by (simp add: numeral_2_eq_2)

text \<open>
  C3: for a line that decodes to a JSON object, the handler first prints the dump of the
  whole decoded object (so \<open>data\<close> and every other field are passed on as decoded), and then
  the message line of the branch named by \<open>type\<close>: welcome, command, status, debug, help,
  error, goodbye, each carrying the value of \<open>message\<close> as decoded. An object without
  \<open>type\<close> takes the generic branch, and an object without \<open>message\<close> gets the empty string.
  For status, error, goodbye and the generic branch that is all the handler prints; the
  other branches go on to render \<open>data\<close>, and what follows the two lines depends on its
  shape.
\<close>

theorem json_classified:
  assumes "loads line = Inr (JObj kvs)"
    and "msg = (case map_of kvs (u ''message'') of None \<Rightarrow> JStr [] | Some v \<Rightarrow> v)"
  shows "(map_of kvs (u ''type'') = Some (JStr (u ''welcome'')) \<longrightarrow>
            take 2 (fst (handle_server_message loads line)) =
              [JsonResponse (JObj kvs), Message Welcome msg]) \<and>
         (map_of kvs (u ''type'') = Some (JStr (u ''command'')) \<longrightarrow>
            take 2 (fst (handle_server_message loads line)) =
              [JsonResponse (JObj kvs), Message CommandAck msg]) \<and>
         (map_of kvs (u ''type'') = Some (JStr (u ''status'')) \<longrightarrow>
            handle_server_message loads line =
              ([JsonResponse (JObj kvs), Message Status msg], None)) \<and>
         (map_of kvs (u ''type'') = Some (JStr (u ''debug'')) \<longrightarrow>
            take 2 (fst (handle_server_message loads line)) =
              [JsonResponse (JObj kvs), Message Debug msg]) \<and>
         (map_of kvs (u ''type'') = Some (JStr (u ''help'')) \<longrightarrow>
            take 2 (fst (handle_server_message loads line)) =
              [JsonResponse (JObj kvs), Message Help msg]) \<and>
         (map_of kvs (u ''type'') = Some (JStr (u ''error'')) \<longrightarrow>
            handle_server_message loads line =
              ([JsonResponse (JObj kvs), Message Error msg], None)) \<and>
         (map_of kvs (u ''type'') = Some (JStr (u ''goodbye'')) \<longrightarrow>
            handle_server_message loads line =
              ([JsonResponse (JObj kvs), Message Goodbye msg], None)) \<and>
         (map_of kvs (u ''type'') = None \<longrightarrow>
            handle_server_message loads line =
              ([JsonResponse (JObj kvs), Message Generic msg], None)) \<and>
         (map_of kvs (u ''message'') = None \<longrightarrow> msg = JStr [])"
proof -
  note body = body_obj [of loads line kvs, OF assms(1), folded assms(2)]
  obtain t where t: "fst (handle_server_message loads line) = fst (handle_body loads line) @ t"
    using handle_prefix by blast
  have c1: "map_of kvs (u ''type'') = Some (JStr (u ''welcome'')) \<longrightarrow>
            take 2 (fst (handle_server_message loads line)) =
              [JsonResponse (JObj kvs), Message Welcome msg]"
    using t by (simp add: body dispatch_head take2_prefix)
  have c2: "map_of kvs (u ''type'') = Some (JStr (u ''command'')) \<longrightarrow>
            take 2 (fst (handle_server_message loads line)) =
              [JsonResponse (JObj kvs), Message CommandAck msg]"
    using t by (simp add: body dispatch_head take2_prefix)
  have c4: "map_of kvs (u ''type'') = Some (JStr (u ''debug'')) \<longrightarrow>
            take 2 (fst (handle_server_message loads line)) =
              [JsonResponse (JObj kvs), Message Debug msg]"
    using t by (simp add: body dispatch_head take2_prefix)
  have c5: "map_of kvs (u ''type'') = Some (JStr (u ''help'')) \<longrightarrow>
            take 2 (fst (handle_server_message loads line)) =
              [JsonResponse (JObj kvs), Message Help msg]"
    using t by (simp add: body dispatch_head take2_prefix)
  have c3: "map_of kvs (u ''type'') = Some (JStr (u ''status'')) \<longrightarrow>
            handle_server_message loads line =
              ([JsonResponse (JObj kvs), Message Status msg], None)"
    by (simp add: handle_returns body dispatch_simple)
  have c6: "map_of kvs (u ''type'') = Some (JStr (u ''error'')) \<longrightarrow>
            handle_server_message loads line =
              ([JsonResponse (JObj kvs), Message Error msg], None)"
    by (simp add: handle_returns body dispatch_simple)
  have c7: "map_of kvs (u ''type'') = Some (JStr (u ''goodbye'')) \<longrightarrow>
            handle_server_message loads line =
              ([JsonResponse (JObj kvs), Message Goodbye msg], None)"
    by (simp add: handle_returns body dispatch_simple)
  have c8: "map_of kvs (u ''type'') = None \<longrightarrow>
            handle_server_message loads line =
              ([JsonResponse (JObj kvs), Message Generic msg], None)"
    by (simp add: handle_returns body dispatch_simple)
  have c9: "map_of kvs (u ''message'') = None \<longrightarrow> msg = JStr []"
    by (simp add: assms(2))
  from c1 c2 c3 c4 c5 c6 c7 c8 c9
  show ?thesis by (intro conjI)
qed


theorem json_classified_witness:
  "sample_loads (u ''{\"type\":\"welcome\",\"message\":\"hi\",\"data\":{\"a\":\"Unlock\"}}'') =
     Inr (JObj [(u ''type'', JStr (u ''welcome'')), (u ''message'', JStr (u ''hi'')),
                (u ''data'', JObj [(u ''a'', JStr (u ''Unlock''))])]) \<and>
   take 2 (fst (handle_server_message sample_loads
     (u ''{\"type\":\"welcome\",\"message\":\"hi\",\"data\":{\"a\":\"Unlock\"}}''))) =
     [JsonResponse (JObj [(u ''type'', JStr (u ''welcome'')), (u ''message'', JStr (u ''hi'')),
                (u ''data'', JObj [(u ''a'', JStr (u ''Unlock''))])]),
      Message Welcome (JStr (u ''hi''))] \<and>
   handle_server_message sample_loads (u ''{\"message\":\"m\"}'') =
     ([JsonResponse (JObj [(u ''message'', JStr (u ''m''))]),
       Message Generic (JStr (u ''m''))], None) \<and>
   handle_server_message sample_loads (u ''{\"type\":\"status\"}'') =
     ([JsonResponse (JObj [(u ''type'', JStr (u ''status''))]),
       Message Status (JStr [])], None)"
proof -
  let ?w = "u ''{\"type\":\"welcome\",\"message\":\"hi\",\"data\":{\"a\":\"Unlock\"}}''"
  let ?wo = "[(u ''type'', JStr (u ''welcome'')), (u ''message'', JStr (u ''hi'')),
                (u ''data'', JObj [(u ''a'', JStr (u ''Unlock''))])]"
  have w: "sample_loads ?w = Inr (JObj ?wo)"
    by (simp add: sample_loads_def sample_lines_def u_def)
  have m: "sample_loads (u ''{\"message\":\"m\"}'') = Inr (JObj [(u ''message'', JStr (u ''m''))])"
    by (simp add: sample_loads_def sample_lines_def u_def)
  have s: "sample_loads (u ''{\"type\":\"status\"}'') = Inr (JObj [(u ''type'', JStr (u ''status''))])"
    by (simp add: sample_loads_def sample_lines_def u_def)
  have wm: "JStr (u ''hi'') = (case map_of ?wo (u ''message'') of None \<Rightarrow> JStr [] | Some v \<Rightarrow> v)"
    by (simp add: u_def)
  have mm: "JStr (u ''m'') = (case map_of [(u ''message'', JStr (u ''m''))] (u ''message'') of
        None \<Rightarrow> JStr [] | Some v \<Rightarrow> v)"
    by simp
  have sm: "JStr [] = (case map_of [(u ''type'', JStr (u ''status''))] (u ''message'') of
        None \<Rightarrow> JStr [] | Some v \<Rightarrow> v)"
    by (simp add: u_def)
  have wt: "map_of ?wo (u ''type'') = Some (JStr (u ''welcome''))" by simp
  have mt: "map_of [(u ''message'', JStr (u ''m''))] (u ''type'') = None" by (simp add: u_def)
  have st: "map_of [(u ''type'', JStr (u ''status''))] (u ''type'') = Some (JStr (u ''status''))"
    by simp
  from json_classified [of sample_loads ?w ?wo, OF w wm]
    json_classified [of sample_loads "u ''{\"message\":\"m\"}''"
      "[(u ''message'', JStr (u ''m''))]", OF m mm]
    json_classified [of sample_loads "u ''{\"type\":\"status\"}''"
      "[(u ''type'', JStr (u ''status''))]", OF s sm]
    w wt mt st
  show ?thesis by simp
qed

text \<open>
  The welcome scenario in full: the commands of \<open>data\<close> that the client knows are listed
  with the client's own names and descriptions.
\<close>

lemma welcome_scenario:
  "handle_server_message sample_loads
     (u ''{\"type\":\"welcome\",\"message\":\"hi\",\"data\":{\"a\":\"Unlock\"}}'') =
     ([JsonResponse (JObj [(u ''type'', JStr (u ''welcome'')), (u ''message'', JStr (u ''hi'')),
                (u ''data'', JObj [(u ''a'', JStr (u ''Unlock''))])]),
       Message Welcome (JStr (u ''hi'')), CommandsHeader,
       CommandEntry (u ''a'') (u ''Unlock'') (u ''Unlock the drone''), CommandsFooter], None)"
  by (simp add: handle_server_message_def handle_body_def eval_then_def dispatch_message_def
      when_in_def print_commands_py_def commands_def say_def skip_def
      sample_loads_def sample_lines_def u_def)

section \<open>Commands that are not in the table\<close>

text \<open>
  C8 fails on the code in two places. The word \<open>help\<close> is not a key of the command table,
  yet the interactive loop answers it with the help text, not with an invalid-command
  error. And \<open>send_command\<close> itself checks nothing: called with \<open>zz\<close>, which is not in the
  table either, it puts \<open>zz\n\<close> on the wire. The check against the table is made by the
  interactive loop, before it calls \<open>send_command\<close>.
\<close>

theorem unknown_command_counterexample:
  "map_of commands (u ''help'') = None \<and>
   interactive_step Ok (Line (u ''help'')) (snd (connect ConnectOk init)) =
     (Continue, (snd (connect ConnectOk init))\<lparr>out := [ConnectedTo, ShowHelp]\<rparr>) \<and>
   map_of commands (u ''zz'') = None \<and>
   send_command Ok (u ''zz'') (snd (connect ConnectOk init)) =
     (True, (snd (connect ConnectOk init))
        \<lparr>calls := [SockConnect, SockSend [0x7A, 0x7A, 0x0A]],
         out := [ConnectedTo, Sending (u ''zz'')]\<rparr>)"
  by (simp add: connected_session interactive_step_def send_command_def commands_def
      strip_def isspace_def encode_utf8_def encode_char_def NL_def u_def)

lemma known_q_h: "map_of commands (u ''q'') \<noteq> None" "map_of commands (u ''h'') \<noteq> None"
  by (simp_all add: commands_def u_def)

text \<open>
  C8, amended: when the stripped input is not a key of the command table, the iteration
  of the interactive loop makes no call on the socket and leaves the socket as it was;
  and unless that input is empty or one of the words the loop answers itself (quit, exit,
  help, clear, ls, commands), the iteration prints the command-not-found notice naming the
  input, and goes on.
\<close>

theorem unknown_command_local:
  assumes "map_of commands (strip raw) = None"
  shows "calls (snd (interactive_step oc (Line raw) s)) = calls s \<and>
         socket (snd (interactive_step oc (Line raw) s)) = socket s \<and>
         (strip raw \<noteq> [] \<and>
          strip raw \<notin> {u ''quit'', u ''exit'', u ''help'', u ''clear'', u ''ls'', u ''commands''} \<longrightarrow>
            interactive_step oc (Line raw) s =
              (Continue, s\<lparr>out := out s @ [CommandNotFound (strip raw)]\<rparr>))"
proof -
  from assms known_q_h have nq: "strip raw \<noteq> u ''q''" and nh: "strip raw \<noteq> u ''h''"
    by auto
  show ?thesis using assms nq nh
    by (simp add: interactive_step_def Let_def)
qed

theorem unknown_command_local_witness:
  "map_of commands (strip (u '' z '')) = None \<and>
   interactive_step Ok (Line (u '' z '')) (snd (connect ConnectOk init)) =
     (Continue, (snd (connect ConnectOk init))
        \<lparr>out := [ConnectedTo, CommandNotFound (u ''z'')]\<rparr>) \<and>
   calls (snd (interactive_step Ok (Line (u '' z '')) (snd (connect ConnectOk init)))) =
     [SockConnect]"
proof -
  have st: "strip (u '' z '') = u ''z''"
    by (simp add: strip_def isspace_def u_def)
  have h: "map_of commands (strip (u '' z '')) = None"
    by (simp add: st) (simp add: commands_def u_def)
  from unknown_command_local [OF h, of Ok "snd (connect ConnectOk init)"] h
  show ?thesis
    by (simp add: st connected_session) (simp add: u_def)
qed

text \<open>A command of the table, typed while connected: its token and a newline go out.\<close>

lemma takeoff_sent:
  "interactive_step Ok (Line (u ''t'')) (snd (connect ConnectOk init)) =
     (Continue, (snd (connect ConnectOk init))
        \<lparr>calls := [SockConnect, SockSend [0x74, 0x0A]],
         out := [ConnectedTo, Executing (u ''Takeoff'') (u ''Take off the drone''),
                 Sending (u ''t'')]\<rparr>)"
  by (simp add: connected_session interactive_step_def send_command_def commands_def
      strip_def isspace_def encode_utf8_def encode_char_def NL_def u_def)

end
